theory Spec2Isabelle
  imports Main
begin

section \<open>Go strings and \<open>strings.TrimSpace\<close>\<close>

text \<open>
  A Go string is a sequence of bytes, modelled as \<^typ>\<open>string\<close> (a list of 8-bit
  characters). \<open>strings.TrimSpace\<close> removes every leading and trailing rune for which
  \<open>unicode.IsSpace\<close> holds. Those runes are listed here by their UTF-8 encodings:
  the six ASCII ones (tab, line feed, vertical tab, form feed, carriage return, space),
  U+0085, U+00A0, U+1680, U+2000 to U+200A, U+2028, U+2029, U+202F, U+205F and U+3000.
  UTF-8 is prefix-free and self-synchronising, so the first (last) rune of a string is a
  space exactly when one of these encodings is a prefix (suffix) of its bytes.
\<close>

definition spaceRunes :: "string list" where
  "spaceRunes =
     [[CHR 0x09], [CHR 0x0A], [CHR 0x0B], [CHR 0x0C], [CHR 0x0D], [CHR 0x20],
      [CHR 0xC2, CHR 0x85], [CHR 0xC2, CHR 0xA0],
      [CHR 0xE1, CHR 0x9A, CHR 0x80],
      [CHR 0xE2, CHR 0x80, CHR 0x80], [CHR 0xE2, CHR 0x80, CHR 0x81],
      [CHR 0xE2, CHR 0x80, CHR 0x82], [CHR 0xE2, CHR 0x80, CHR 0x83],
      [CHR 0xE2, CHR 0x80, CHR 0x84], [CHR 0xE2, CHR 0x80, CHR 0x85],
      [CHR 0xE2, CHR 0x80, CHR 0x86], [CHR 0xE2, CHR 0x80, CHR 0x87],
      [CHR 0xE2, CHR 0x80, CHR 0x88], [CHR 0xE2, CHR 0x80, CHR 0x89],
      [CHR 0xE2, CHR 0x80, CHR 0x8A],
      [CHR 0xE2, CHR 0x80, CHR 0xA8], [CHR 0xE2, CHR 0x80, CHR 0xA9],
      [CHR 0xE2, CHR 0x80, CHR 0xAF], [CHR 0xE2, CHR 0x81, CHR 0x9F],
      [CHR 0xE3, CHR 0x80, CHR 0x80]]"

text \<open>The byte width of the rune from \<open>encs\<close> that starts \<open>s\<close>, or 0 when none does.\<close>

fun leadWidth :: "string list \<Rightarrow> string \<Rightarrow> nat" where
  "leadWidth [] s = 0"
| "leadWidth (e # encs) s =
     (if e \<noteq> [] \<and> take (length e) s = e then length e else leadWidth encs s)"

text \<open>
  Leading runes are removed one at a time until the text starts with none of them;
  \<open>drop (w - 1) cs\<close> is \<open>drop w (c # cs)\<close> for the width \<open>w > 0\<close> of the first rune.
\<close>

fun trimLeftRunes :: "string list \<Rightarrow> string \<Rightarrow> string" where
  "trimLeftRunes encs [] = []"
| "trimLeftRunes encs (c # cs) =
     (if leadWidth encs (c # cs) = 0 then c # cs
      else trimLeftRunes encs (drop (leadWidth encs (c # cs) - 1) cs))"

definition TrimLeftSpace :: "string \<Rightarrow> string" where
  "TrimLeftSpace s = trimLeftRunes spaceRunes s"

definition TrimRightSpace :: "string \<Rightarrow> string" where
  "TrimRightSpace s = rev (trimLeftRunes (map rev spaceRunes) (rev s))"

definition TrimSpace :: "string \<Rightarrow> string" where
  "TrimSpace s = TrimRightSpace (TrimLeftSpace s)"

section \<open>The regular expression \<open>ovalRegex\<close>\<close>

text \<open>
  \<open>regexp.MustCompile\<close> gives Go's leftmost-first (Perl-like) matching, where a lazy
  star prefers the shorter repetition. The expression is kept as the flat instruction
  sequence it parses to. Without flags \<open>.\<close> matches every character except line feed,
  a negated class \<open>[^c]\<close> matches every character except \<open>c\<close> (line feed included),
  \<open>^\<close> matches at the beginning and \<open>$\<close> at the end of the text only. The three
  characters the expression names are ASCII, which never occur inside a multi-byte
  UTF-8 sequence, so matching byte by byte finds the same boundaries as matching rune
  by rune.
\<close>

datatype cclass = AnyNotNL | AnyBut char

fun inClass :: "cclass \<Rightarrow> char \<Rightarrow> bool" where
  "inClass AnyNotNL c = (c \<noteq> CHR 0x0A)"
| "inClass (AnyBut x) c = (c \<noteq> x)"

datatype inst =
    BeginText
  | EndText
  | Lit char
  | LazyStar cclass
  | CapOpen
  | CapClose

text \<open>
  \<open>run prog s pos cap\<close> matches \<open>prog\<close> against the rest \<open>s\<close> of the text, \<open>pos\<close>
  bytes into it, and returns the end position and the capture positions of the
  preferred match. At a lazy star the continuation is tried first and one more
  character is consumed only when the continuation fails.
\<close>

fun run :: "inst list \<Rightarrow> string \<Rightarrow> nat \<Rightarrow> nat option \<times> nat option
    \<Rightarrow> (nat \<times> nat option \<times> nat option) option" where
  "run [] s pos cap = Some (pos, cap)"
| "run (BeginText # prog) s pos cap = (if pos = 0 then run prog s pos cap else None)"
| "run (EndText # prog) s pos cap = (if s = [] then run prog s pos cap else None)"
| "run (Lit c # prog) [] pos cap = None"
| "run (Lit c # prog) (x # xs) pos cap =
     (if x = c then run prog xs (Suc pos) cap else None)"
| "run (CapOpen # prog) s pos cap = run prog s pos (Some pos, snd cap)"
| "run (CapClose # prog) s pos cap = run prog s pos (fst cap, Some pos)"
| "run (LazyStar k # prog) [] pos cap = run prog [] pos cap"
| "run (LazyStar k # prog) (x # xs) pos cap =
     (case run prog (x # xs) pos cap of
        Some m \<Rightarrow> Some m
      | None \<Rightarrow> (if inClass k x then run (LazyStar k # prog) xs (Suc pos) cap else None))"

text \<open>The leftmost start position at which the program matches.\<close>

fun search :: "inst list \<Rightarrow> string \<Rightarrow> nat
    \<Rightarrow> (nat \<times> nat \<times> nat option \<times> nat option) option" where
  "search prog [] pos =
     (case run prog [] pos (None, None) of Some m \<Rightarrow> Some (pos, m) | None \<Rightarrow> None)"
| "search prog (x # xs) pos =
     (case run prog (x # xs) pos (None, None) of
        Some m \<Rightarrow> Some (pos, m)
      | None \<Rightarrow> search prog xs (Suc pos))"

definition slice :: "string \<Rightarrow> nat \<Rightarrow> nat \<Rightarrow> string" where
  "slice s i j = take (j - i) (drop i s)"

text \<open>
  \<open>FindStringSubmatch\<close> for an expression with one group: \<open>nil\<close> (the empty list)
  when nothing matches, else the whole match followed by the group's text (empty
  for a group that did not take part).
\<close>

definition FindStringSubmatch :: "inst list \<Rightarrow> string \<Rightarrow> string list" where
  "FindStringSubmatch prog s =
     (case search prog s 0 of
        None \<Rightarrow> []
      | Some (b, e, cap) \<Rightarrow>
          [slice s b e,
           (case cap of (Some i, Some j) \<Rightarrow> slice s i j | _ \<Rightarrow> [])])"

text \<open>\<open>^[^:]*?:[^-]*?-(.*?):.*?$\<close>\<close>

definition ovalRegex :: "inst list" where
  "ovalRegex =
     [BeginText, LazyStar (AnyBut CHR '':''), Lit CHR '':'',
      LazyStar (AnyBut CHR ''-''), Lit CHR ''-'',
      CapOpen, LazyStar AnyNotNL, CapClose, Lit CHR '':'',
      LazyStar AnyNotNL, EndText]"

section \<open>The parsed results document\<close>

text \<open>
  The tree \<open>xmlquery\<close> parses a document into. An attribute carries the prefix and
  the local part of its name and its value; an element carries its prefix, its local
  name, its attributes and its children in document order. \<open>Text\<close> stands for the
  text and character-data nodes. Declaration nodes carry neither elements nor text
  and are left out.
\<close>

type_synonym attr = "(string \<times> string) \<times> string"

datatype node =
    Document "node list"
  | Element string string "attr list" "node list"
  | Text string
  | Comment string

text \<open>
  \<open>SelectAttr\<close> splits the name at its first colon when that colon is not the first
  character, and returns the value of the first attribute with that prefix and local
  name, or the empty string.
\<close>

definition newXMLName :: "string \<Rightarrow> string \<times> string" where
  "newXMLName name =
     (if CHR '':'' \<in> set name \<and> takeWhile (\<lambda>c. c \<noteq> CHR '':'') name \<noteq> []
      then (takeWhile (\<lambda>c. c \<noteq> CHR '':'') name, tl (dropWhile (\<lambda>c. c \<noteq> CHR '':'') name))
      else ([], name))"

fun SelectAttr :: "node \<Rightarrow> string \<Rightarrow> string" where
  "SelectAttr (Element p l as cs) name =
     (case map_of as (newXMLName name) of Some v \<Rightarrow> v | None \<Rightarrow> [])"
| "SelectAttr n name = []"

fun InnerText :: "node \<Rightarrow> string" where
  "InnerText (Text d) = d"
| "InnerText (Comment d) = []"
| "InnerText (Document cs) = concat (map InnerText cs)"
| "InnerText (Element p l as cs) = concat (map InnerText cs)"

fun childNodes :: "node \<Rightarrow> node list" where
  "childNodes (Document cs) = cs"
| "childNodes (Element p l as cs) = cs"
| "childNodes n = []"

text \<open>All nodes strictly below a node, in document order (parents before children).\<close>

fun descendants :: "node \<Rightarrow> node list" where
  "descendants (Document cs) = concat (map (\<lambda>c. c # descendants c) cs)"
| "descendants (Element p l as cs) = concat (map (\<lambda>c. c # descendants c) cs)"
| "descendants (Text d) = []"
| "descendants (Comment d) = []"

text \<open>A name test holds for an element whose prefix and local name both agree.\<close>

fun named :: "string \<Rightarrow> string \<Rightarrow> node \<Rightarrow> bool" where
  "named p l (Element p' l' as cs) = (p' = p \<and> l' = l)"
| "named p l n = False"

text \<open>
  The two forms of path expression the source uses: \<open>//p:l\<close> (\<open>Descendant p l\<close>) and
  \<open>p:l\<close> (\<open>Child p l\<close>), an empty \<open>p\<close> standing for a name without prefix. The
  navigator \<open>xmlquery\<close> creates for a query takes the queried node as its root, so
  \<open>//\<close> ranges over the descendants of the node the query is called on.
\<close>

datatype expr = Descendant string string | Child string string

fun SelectElements :: "node \<Rightarrow> expr \<Rightarrow> node list" where
  "SelectElements n (Descendant p l) = filter (named p l) (descendants n)"
| "SelectElements n (Child p l) = filter (named p l) (childNodes n)"

text \<open>\<open>SelectElement\<close> returns the first selected node, or \<open>nil\<close>.\<close>

definition SelectElement :: "node \<Rightarrow> expr \<Rightarrow> node option" where
  "SelectElement n e = (case SelectElements n e of [] \<Rightarrow> None | x # xs \<Rightarrow> Some x)"

section \<open>Errors\<close>

text \<open>
  One constructor for each error the two files create, with the values their messages
  are formatted from, and one for an error handed up from a collaborator.
\<close>

datatype error =
    ErrNoTarget
  | ErrNoName
  | ErrUnexpectedFormat string
  | ErrNoResult
  | ErrNoMatch string
  | ErrOpenConfig error
  | ErrParseConfig error
  | ErrMissingDefault string string
  | ErrExternal string

section \<open>The policy and the result types\<close>

text \<open>
  The types of the policy framework, with the fields the source reads or sets. Fields
  of two structs that share a name are told apart by a prefix. A timestamp is the
  reading of the clock, a natural number.
\<close>

datatype Result = ResultInvalid | ResultError | ResultPass | ResultFail

record Check =
  ID :: string

record RuleSet =
  Checks :: "Check list"

type_synonym Policy = "RuleSet list"

record Property =
  Name :: string
  Value :: string

record Link =
  Href :: string
  Description :: string

record Subject =
  Subject_Title :: string
  Type :: string
  ResourceID :: string
  EvaluatedOn :: nat
  Result :: Result
  Reason :: string
  Props :: "Property list"

record ObservationByCheck =
  Title :: string
  Methods :: "string list"
  Collected :: nat
  CheckID :: string
  Subjects :: "Subject list"
  RelevantEvidences :: "Link list"

record PVPResult =
  ObservationsByCheck :: "ObservationByCheck list"

text \<open>\<open>policy.PVPResult{}\<close>\<close>

definition PVPResult_empty :: PVPResult where
  "PVPResult_empty = \<lparr>ObservationsByCheck = []\<rparr>"

record Config =
  Files_ARF :: string
  Parameters_Profile :: string

section \<open>The plugin manifest and the plugin options\<close>

record ConfigurationOption =
  Option_Name :: string
  Option_Required :: bool
  Option_Default :: "string option"

record Manifest =
  Configuration :: "ConfigurationOption list"

record PluginOptions =
  Workspace :: string
  Profile :: string
  UserConfigRoot :: string

section \<open>Calls that leave the two files\<close>

text \<open>
  What the scanner, the file system, the parsers, the rule index and the clock answer
  is not decided by the two files, so each is a parameter: \<open>scan.ScanSystem\<close> (its
  output is dropped, its error kept), \<open>filepath.Clean\<close> and \<open>filepath.Join\<close>,
  \<open>os.Open\<close> (the bytes of the file, or an error), \<open>os.IsNotExist\<close>,
  \<open>utils.ParseContent\<close>, \<open>xccdf.NewRuleHashTable\<close> (the index from rule identifier
  to rule node built from a document), \<open>time.Now\<close> (the reading of the clock at its
  \<open>n\<close>-th call) and the JSON decoding of a manifest. Of the configuration only the
  two fields read here are kept: \<open>Config.Files.ARF\<close> and
  \<open>Config.Parameters.Profile\<close>.
\<close>

record extern =
  ScanSystem :: "Config \<Rightarrow> string \<Rightarrow> error option"
  Clean :: "string \<Rightarrow> string"
  Join :: "string \<Rightarrow> string \<Rightarrow> string"
  Open :: "string \<Rightarrow> error + string"
  IsNotExist :: "error \<Rightarrow> bool"
  ParseContent :: "string \<Rightarrow> error + node"
  NewRuleHashTable :: "node \<Rightarrow> string \<rightharpoonup> node"
  Now :: "nat \<Rightarrow> nat"
  Decode :: "string \<Rightarrow> error + Manifest"

section \<open>The policy check set\<close>

text \<open>\<open>type checks map[string]struct{}\<close>: a map whose keys are the members.\<close>

type_synonym checks = "string \<rightharpoonup> unit"

definition newChecks :: checks where
  "newChecks = Map.empty"

fun LoadPolicy_checks :: "checks \<Rightarrow> Check list \<Rightarrow> checks" where
  "LoadPolicy_checks c [] = c"
| "LoadPolicy_checks c (check # rest) = LoadPolicy_checks (c(ID check \<mapsto> ())) rest"

fun LoadPolicy :: "checks \<Rightarrow> Policy \<Rightarrow> checks" where
  "LoadPolicy c [] = c"
| "LoadPolicy c (rule # rest) = LoadPolicy (LoadPolicy_checks c (Checks rule)) rest"

definition Has :: "checks \<Rightarrow> string \<Rightarrow> bool" where
  "Has c check = (case c check of Some u \<Rightarrow> True | None \<Rightarrow> False)"

section \<open>\<open>parseCheck\<close> and \<open>mapResultStatus\<close>\<close>

definition ovalCheckType :: string where
  "ovalCheckType = ''http://oval.mitre.org/XMLSchema/oval-definitions-5''"

text \<open>Both return Go's pair of a value and an error, \<open>None\<close> being the \<open>nil\<close> error.\<close>

definition parseCheck :: "node \<Rightarrow> string \<times> error option" where
  "parseCheck check =
     (let ovalCheckName = TrimSpace (SelectAttr check ''name'') in
      if ovalCheckName = [] then ([], Some ErrNoName)
      else
        let matches = FindStringSubmatch ovalRegex ovalCheckName;
            minimumPart = 2; shortNameLoc = 1 in
        if length matches < minimumPart
        then ([], Some (ErrUnexpectedFormat ovalCheckName))
        else (matches ! shortNameLoc, None))"

definition mapResultStatus :: "node \<Rightarrow> Result \<times> error option" where
  "mapResultStatus result =
     (case SelectElement result (Child [] ''result'') of
        None \<Rightarrow> (ResultInvalid, Some ErrNoResult)
      | Some resultEl \<Rightarrow>
          (let t = InnerText resultEl in
           if t = ''pass'' \<or> t = ''fixed'' then (ResultPass, None)
           else if t = ''fail'' then (ResultFail, None)
           else if t = ''notselected'' \<or> t = ''notapplicable'' then (ResultError, None)
           else if t = ''error'' \<or> t = ''unknown'' then (ResultError, None)
           else (ResultInvalid, Some (ErrNoMatch t))))"

section \<open>\<open>GetResults\<close>\<close>

text \<open>
  The inner loop over a rule's checks: the first check whose \<open>system\<close> attribute is
  the OVAL one decides, by its first \<open>check-content-ref\<close> child (\<open>nil\<close> when it has
  none), and ends the loop.
\<close>

fun ovalRefEl_loop :: "node list \<Rightarrow> node option" where
  "ovalRefEl_loop [] = None"
| "ovalRefEl_loop (check # rest) =
     (if SelectAttr check ''system'' = ovalCheckType
      then SelectElement check (Child ''xccdf-1.2'' ''check-content-ref'')
      else ovalRefEl_loop rest)"

text \<open>
  What one pass through the body of the outer loop does: go on to the next
  rule-result with the results gathered so far and the number of clock readings
  taken, return from \<open>GetResults\<close>, or panic on a \<open>nil\<close> node.
\<close>

datatype flow =
    Next PVPResult nat
  | Return PVPResult "error option"
  | Panic

definition GetResults_body ::
  "extern \<Rightarrow> Config \<Rightarrow> checks \<Rightarrow> string \<Rightarrow> (string \<rightharpoonup> node) \<Rightarrow> node
     \<Rightarrow> PVPResult \<Rightarrow> nat \<Rightarrow> flow" where
  "GetResults_body ext cfg policyChecks target ruleTable result pvpResults clock =
     (let ruleIDRef = SelectAttr result ''idref'' in
      case ruleTable ruleIDRef of
        None \<Rightarrow> Next pvpResults clock
      | Some rule \<Rightarrow>
          (case ovalRefEl_loop (SelectElements rule (Descendant ''xccdf-1.2'' ''check'')) of
             None \<Rightarrow> Next pvpResults clock
           | Some ovalRefEl \<Rightarrow>
               (case parseCheck ovalRefEl of
                  (ovalCheck, Some err) \<Rightarrow> Return PVPResult_empty (Some err)
                | (ovalCheck, None) \<Rightarrow>
                    if Has policyChecks ovalCheck then
                      (case mapResultStatus result of
                         (mappedResult, Some err) \<Rightarrow> Return PVPResult_empty (Some err)
                       | (mappedResult, None) \<Rightarrow>
                           (case SelectElement result (Child [] ''result'') of
                              None \<Rightarrow> Panic
                            | Some resultEl \<Rightarrow>
                                (let observation =
                                   \<lparr>Title = ruleIDRef,
                                    Methods = [''AUTOMATED''],
                                    Collected = Now ext clock,
                                    CheckID = ovalCheck,
                                    Subjects =
                                      [\<lparr>Subject_Title = ''Host '' @ target,
                                        Type = ''inventory-item'',
                                        ResourceID = target,
                                        EvaluatedOn = Now ext (Suc clock),
                                        Result = mappedResult,
                                        Reason = ''openscap rule-result is '' @ InnerText resultEl,
                                        Props = [\<lparr>Name = ''hostname'', Value = target\<rparr>]\<rparr>],
                                    RelevantEvidences =
                                      [\<lparr>Href = ''file://'' @ Files_ARF cfg,
                                        Description = ''ARF_FILE''\<rparr>]\<rparr>
                                 in Next (pvpResults\<lparr>ObservationsByCheck :=
                                            ObservationsByCheck pvpResults @ [observation]\<rparr>)
                                         (Suc (Suc clock)))))
                    else Next pvpResults clock)))"

fun GetResults_loop ::
  "extern \<Rightarrow> Config \<Rightarrow> checks \<Rightarrow> string \<Rightarrow> (string \<rightharpoonup> node) \<Rightarrow> node list
     \<Rightarrow> PVPResult \<Rightarrow> nat \<Rightarrow> flow" where
  "GetResults_loop ext cfg policyChecks target ruleTable [] pvpResults clock =
     Next pvpResults clock"
| "GetResults_loop ext cfg policyChecks target ruleTable (result # results) pvpResults clock =
     (case GetResults_body ext cfg policyChecks target ruleTable result pvpResults clock of
        Next pvpResults' clock' \<Rightarrow>
          GetResults_loop ext cfg policyChecks target ruleTable results pvpResults' clock'
      | Return r err \<Rightarrow> Return r err
      | Panic \<Rightarrow> Panic)"

text \<open>
  \<open>GetResults\<close> returns Go's pair of a result and an error; \<open>None\<close> stands for a
  call that panics instead of returning. Log output is not modelled.
\<close>

definition GetResults :: "extern \<Rightarrow> Config \<Rightarrow> Policy \<Rightarrow> (PVPResult \<times> error option) option" where
  "GetResults ext cfg oscalPolicy =
     (let pvpResults = PVPResult_empty; policyChecks = newChecks in
      case ScanSystem ext cfg (Parameters_Profile cfg) of
        Some err \<Rightarrow> Some (PVPResult_empty, Some err)
      | None \<Rightarrow>
          (let policyChecks = LoadPolicy policyChecks oscalPolicy in
           case Open ext (Clean ext (Files_ARF cfg)) of
             Inl err \<Rightarrow> Some (PVPResult_empty, Some err)
           | Inr file \<Rightarrow>
               (case ParseContent ext file of
                  Inl err \<Rightarrow> Some (PVPResult_empty, Some err)
                | Inr xmlnode \<Rightarrow>
                    (case SelectElement xmlnode (Descendant [] ''target'') of
                       None \<Rightarrow> Some (PVPResult_empty, Some ErrNoTarget)
                     | Some targetEl \<Rightarrow>
                         (let target = InnerText targetEl;
                              ruleTable = NewRuleHashTable ext xmlnode;
                              results = SelectElements xmlnode (Descendant [] ''rule-result'')
                          in case GetResults_loop ext cfg policyChecks target ruleTable
                                    results pvpResults 0 of
                               Next r clock \<Rightarrow> Some (r, None)
                             | Return r err \<Rightarrow> Some (r, err)
                             | Panic \<Rightarrow> None)))))"

section \<open>\<open>PluginOptions.ToMap\<close>\<close>

text \<open>
  The loop over the manifest's configuration options. It ends the call early, with
  the selections made so far, at a required option without a default value.
\<close>

fun ToMap_loop :: "string \<Rightarrow> ConfigurationOption list \<Rightarrow> (string \<rightharpoonup> string)
    \<Rightarrow> (string \<rightharpoonup> string) \<times> error option" where
  "ToMap_loop configPath [] selections = (selections, None)"
| "ToMap_loop configPath (configOption # rest) selections =
     (if Option_Name configOption = ''workspace'' \<or> Option_Name configOption = ''profile''
      then ToMap_loop configPath rest selections
      else
        (case Option_Default configOption of
           None \<Rightarrow>
             if Option_Required configOption
             then (selections, Some (ErrMissingDefault (Option_Name configOption) configPath))
             else ToMap_loop configPath rest (selections(Option_Name configOption \<mapsto> []))
         | Some d \<Rightarrow> ToMap_loop configPath rest (selections(Option_Name configOption \<mapsto> d))))"

definition ToMap :: "extern \<Rightarrow> PluginOptions \<Rightarrow> string \<Rightarrow> (string \<rightharpoonup> string) \<times> error option" where
  "ToMap ext p pluginId =
     (let selections = Map.empty;
          selections = selections(''workspace'' \<mapsto> Workspace p);
          selections = selections(''profile'' \<mapsto> Profile p) in
      if UserConfigRoot p \<noteq> [] then
        (let configPath = Join ext (UserConfigRoot p) (''c2p-'' @ pluginId @ ''-manifest.json'') in
         case Open ext configPath of
           Inl err \<Rightarrow>
             if IsNotExist ext err then (selections, None)
             else (selections, Some (ErrOpenConfig err))
         | Inr configFile \<Rightarrow>
             (case Decode ext configFile of
                Inl err \<Rightarrow> (selections, Some (ErrParseConfig err))
              | Inr configManifest \<Rightarrow>
                  ToMap_loop configPath (Configuration configManifest) selections))
      else (selections, None))"

section \<open>The documented form of a check identifier\<close>

text \<open>
  The specification gives the form of an identifier as
  \<open><prefix>:<namespace>-<shortname>:<suffix>\<close>, delimited by a colon, a hyphen and
  a colon. \<open>documentedForm\<close> follows these words: the text has a colon, a hyphen
  somewhere after its first colon, and a colon somewhere after the first such hyphen.
  \<open>identifierTail\<close> is what follows that hyphen.
\<close>

definition afterFirst :: "char \<Rightarrow> string \<Rightarrow> string" where
  "afterFirst c s = tl (dropWhile (\<lambda>x. x \<noteq> c) s)"

definition identifierTail :: "string \<Rightarrow> string" where
  "identifierTail s = afterFirst CHR ''-'' (afterFirst CHR '':'' s)"

definition documentedForm :: "string \<Rightarrow> bool" where
  "documentedForm s =
     (CHR '':'' \<in> set s \<and> CHR ''-'' \<in> set (afterFirst CHR '':'' s)
      \<and> CHR '':'' \<in> set (identifierTail s))"

section \<open>Sample documents\<close>

text \<open>
  Builders for the nodes of a results document as the scanner writes them, and the
  calls of a run whose scan succeeds, whose results file parses to \<open>doc\<close>, whose
  rule index is \<open>table\<close> and whose clock reads \<open>n\<close> at its \<open>n\<close>-th reading.
\<close>

definition contentRef_node :: "string \<Rightarrow> node" where
  "contentRef_node name =
     Element ''xccdf-1.2'' ''check-content-ref''
       [(([], ''name''), name), (([], ''href''), ''ssg-oval.xml'')] []"

definition check_node :: "string \<Rightarrow> node list \<Rightarrow> node" where
  "check_node system cs = Element ''xccdf-1.2'' ''check'' [(([], ''system''), system)] cs"

definition rule_node :: "string \<Rightarrow> node list \<Rightarrow> node" where
  "rule_node rid cs = Element ''xccdf-1.2'' ''Rule'' [(([], ''id''), rid)] cs"

definition ruleResult_node :: "string \<Rightarrow> string \<Rightarrow> node" where
  "ruleResult_node rid outcome =
     Element [] ''rule-result'' [(([], ''idref''), rid)] [Element [] ''result'' [] [Text outcome]]"

definition target_node :: "string \<Rightarrow> node" where
  "target_node host = Element [] ''target'' [] [Text host]"

definition document :: "node list \<Rightarrow> node list \<Rightarrow> node" where
  "document rules testResult =
     Document [Element [] ''Benchmark'' [] (rules @ [Element [] ''TestResult'' [] testResult])]"

definition scanned :: "node \<Rightarrow> (string \<rightharpoonup> node) \<Rightarrow> extern" where
  "scanned doc table =
     \<lparr>ScanSystem = (\<lambda>c p. None), Clean = (\<lambda>p. p), Join = (\<lambda>a b. a @ ''/'' @ b),
      Open = (\<lambda>p. Inr []), IsNotExist = (\<lambda>e. False), ParseContent = (\<lambda>b. Inr doc),
      NewRuleHashTable = (\<lambda>d. table), Now = (\<lambda>n. n),
      Decode = (\<lambda>b. Inr \<lparr>Configuration = []\<rparr>)\<rparr>"

definition sampleConfig :: Config where
  "sampleConfig = \<lparr>Files_ARF = ''/tmp/arf.xml'', Parameters_Profile = ''cis''\<rparr>"

definition policyOf :: "string list \<Rightarrow> Policy" where
  "policyOf ids = [\<lparr>Checks = map (\<lambda>i. \<lparr>ID = i\<rparr>) ids\<rparr>]"

text \<open>The rule and the document of the end-to-end scenario.\<close>

definition sshdRule :: node where
  "sshdRule =
     rule_node ''rule1''
       [check_node ovalCheckType [contentRef_node ''oval:ssg-sshd_enabled-1:def:1'']]"

definition sshdDoc :: node where
  "sshdDoc = document [sshdRule] [target_node ''host1'', ruleResult_node ''rule1'' ''fail'']"

text \<open>
  The observation \<open>GetResults\<close> builds under \<open>scanned\<close> and \<open>sampleConfig\<close> when
  the clock has been read \<open>clock\<close> times before.
\<close>

definition hostObservation ::
  "string \<Rightarrow> string \<Rightarrow> string \<Rightarrow> Result \<Rightarrow> string \<Rightarrow> nat \<Rightarrow> ObservationByCheck" where
  "hostObservation ruleId checkId host res token clock =
     \<lparr>Title = ruleId, Methods = [''AUTOMATED''], Collected = clock, CheckID = checkId,
      Subjects =
        [\<lparr>Subject_Title = ''Host '' @ host, Type = ''inventory-item'', ResourceID = host,
          EvaluatedOn = Suc clock, Result = res,
          Reason = ''openscap rule-result is '' @ token,
          Props = [\<lparr>Name = ''hostname'', Value = host\<rparr>]\<rparr>],
      RelevantEvidences = [\<lparr>Href = ''file:///tmp/arf.xml'', Description = ''ARF_FILE''\<rparr>]\<rparr>"

text \<open>
  Further documents: one without a \<open>target\<close> element; one whose second rule-result
  refers to a rule with an identifier that has no colon; one whose second rule-result
  holds a token outside the seven mapped ones; the document of the skip example; and
  a rule with a check of another system followed by two OVAL checks.
\<close>

definition noTargetDoc :: node where
  "noTargetDoc = document [sshdRule] [ruleResult_node ''rule1'' ''fail'']"

definition malformedRule :: node where
  "malformedRule = rule_node ''rule2'' [check_node ovalCheckType [contentRef_node ''sshd_enabled'']]"

definition malformedDoc :: node where
  "malformedDoc =
     document [sshdRule, malformedRule]
       [target_node ''host1'', ruleResult_node ''rule1'' ''fail'',
        ruleResult_node ''rule2'' ''pass'', ruleResult_node ''rule1'' ''pass'']"

definition notcheckedDoc :: node where
  "notcheckedDoc =
     document [sshdRule]
       [target_node ''host1'', ruleResult_node ''rule1'' ''fail'',
        ruleResult_node ''rule1'' ''notchecked'']"

definition xRule :: node where
  "xRule = rule_node ''ruleX'' [check_node ovalCheckType [contentRef_node ''oval:ssg-X:def:1'']]"

definition xDoc :: node where
  "xDoc = document [xRule] [target_node ''host1'', ruleResult_node ''ruleX'' ''pass'']"

definition threeChecksRule :: node where
  "threeChecksRule =
     rule_node ''rule3''
       [check_node ''http://scap.nist.gov/schema/ocil/2''
          [contentRef_node ''ocil:ssg-first:questionnaire:1''],
        check_node ovalCheckType [contentRef_node ''oval:ssg-second:def:1''],
        check_node ovalCheckType [contentRef_node ''oval:ssg-third:def:1'']]"

text \<open>
  A manifest for \<open>ToMap\<close>: an option named \<open>workspace\<close> that is required and has
  no default value, an ordinary option \<open>n\<close> with the default value \<open>v\<close>, the
  plugin options of a run with a user configuration root, and the calls of a run whose
  manifest file opens and decodes to the given configuration.
\<close>

definition reservedOption :: ConfigurationOption where
  "reservedOption =
     \<lparr>Option_Name = ''workspace'', Option_Required = True, Option_Default = None\<rparr>"

definition plainOption :: ConfigurationOption where
  "plainOption = \<lparr>Option_Name = ''n'', Option_Required = False, Option_Default = Some ''v''\<rparr>"

definition sampleOptions :: PluginOptions where
  "sampleOptions = \<lparr>Workspace = ''/ws'', Profile = ''cis'', UserConfigRoot = ''/etc/c2p''\<rparr>"

definition withManifest :: "ConfigurationOption list \<Rightarrow> extern" where
  "withManifest opts =
     (scanned (Document []) Map.empty)\<lparr>Decode := (\<lambda>b. Inr \<lparr>Configuration = opts\<rparr>)\<rparr>"

section \<open>What \<open>ovalRegex\<close> matches\<close>

lemma run_rest:
  "run [LazyStar AnyNotNL, EndText] s pos cap =
     (if CHR 0x0A \<in> set s then None else Some (pos + length s, cap))"
  by (induction s arbitrary: pos) auto

lemma run_group:
  "run [LazyStar AnyNotNL, CapClose, Lit CHR '':'', LazyStar AnyNotNL, EndText] s pos cap =
     (if CHR 0x0A \<in> set s \<or> CHR '':'' \<notin> set s then None
      else Some (pos + length s, fst cap,
                 Some (pos + length (takeWhile (\<lambda>c. c \<noteq> CHR '':'') s))))"
proof (induction s arbitrary: pos)
  case Nil
  show ?case by simp
next
  case (Cons x xs)
  show ?case
  proof (cases "x = CHR '':''")
    case True
    then show ?thesis using Cons [of "Suc pos"] by (simp add: run_rest)
  next
    case False
    then show ?thesis using Cons [of "Suc pos"] by (simp add: run_rest)
  qed
qed

lemma run_until:
  "run (LazyStar (AnyBut c) # Lit c # prog) s pos cap =
     (case dropWhile (\<lambda>x. x \<noteq> c) s of
        [] \<Rightarrow> None
      | d # r \<Rightarrow> run prog r (Suc (pos + length (takeWhile (\<lambda>x. x \<noteq> c) s))) cap)"
proof (induction s arbitrary: pos)
  case Nil
  show ?case by simp
next
  case (Cons x xs)
  show ?case
  proof (cases "x = c")
    case True
    then show ?thesis by (simp split: option.splits)
  next
    case False
    then show ?thesis using Cons [of "Suc pos"]
      by (cases "dropWhile (\<lambda>x. x \<noteq> c) xs") (simp_all del: dropWhile_eq_Nil_conv)
  qed
qed

lemma search_anchored: "0 < pos \<Longrightarrow> search (BeginText # prog) s pos = None"
  by (induction s arbitrary: pos) auto

lemma search_BeginText:
  "search (BeginText # prog) s 0 =
     (case run prog s 0 (None, None) of Some m \<Rightarrow> Some (0, m) | None \<Rightarrow> None)"
  by (cases s) (auto simp: search_anchored split: option.splits)

lemma dropWhile_Cons_mem: "dropWhile (\<lambda>x. x \<noteq> c) s = d # r \<Longrightarrow> c \<in> set s"
  by (induction s) (auto simp del: dropWhile_eq_Cons_conv split: if_splits)

lemma length_split_at:
  "dropWhile P s = d # r \<Longrightarrow> length s = Suc (length (takeWhile P s) + length r)"
  using arg_cong [OF takeWhile_dropWhile_id [of P s], of length] by simp



lemma run_ovalRegex_unfold:
  "run ovalRegex s 0 (None, None) =
     (case dropWhile (\<lambda>x. x \<noteq> CHR '':'') s of
        [] \<Rightarrow> None
      | d1 # r1 \<Rightarrow>
         (case dropWhile (\<lambda>x. x \<noteq> CHR ''-'') r1 of
            [] \<Rightarrow> None
          | d2 # r2 \<Rightarrow>
             (if CHR 0x0A \<in> set r2 \<or> CHR '':'' \<notin> set r2 then None
              else Some (length s, Some (length s - length r2),
                 Some (length s - length r2 + length (takeWhile (\<lambda>c. c \<noteq> CHR '':'') r2))))))"
proof (cases "dropWhile (\<lambda>x. x \<noteq> CHR '':'') s")
  case Nil
  show ?thesis unfolding ovalRegex_def run.simps run_until Nil by simp
next
  case c1: (Cons d1 r1)
  show ?thesis
  proof (cases "dropWhile (\<lambda>x. x \<noteq> CHR ''-'') r1")
    case Nil
    show ?thesis unfolding ovalRegex_def run.simps run_until c1 list.case
      using Nil by (simp del: dropWhile_eq_Cons_conv dropWhile_eq_Nil_conv)
  next
    case c2: (Cons d2 r2)
    have len: "length s = Suc (Suc (length (takeWhile (\<lambda>x. x \<noteq> CHR '':'') s)
                  + length (takeWhile (\<lambda>x. x \<noteq> CHR ''-'') r1))) + length r2"
      using length_split_at [OF c1] length_split_at [OF c2] by simp
    show ?thesis unfolding ovalRegex_def run.simps run_until c1 list.case
      using c2
      by (simp add: run_group len del: dropWhile_eq_Cons_conv dropWhile_eq_Nil_conv)
  qed
qed

lemma drop_identifierTail:
  assumes df: "documentedForm s"
  shows "drop (length s - length (identifierTail s)) s = identifierTail s"
proof -
  define k1 where "k1 = takeWhile (\<lambda>x. x \<noteq> CHR '':'') s"
  obtain d1 r1 where c1: "dropWhile (\<lambda>x. x \<noteq> CHR '':'') s = d1 # r1"
    using df by (cases "dropWhile (\<lambda>x. x \<noteq> CHR '':'') s") (auto simp: documentedForm_def)
  then have a1: "afterFirst CHR '':'' s = r1" by (simp add: afterFirst_def)
  define k2 where "k2 = takeWhile (\<lambda>x. x \<noteq> CHR ''-'') r1"
  obtain d2 r2 where c2: "dropWhile (\<lambda>x. x \<noteq> CHR ''-'') r1 = d2 # r2"
    using df a1 by (cases "dropWhile (\<lambda>x. x \<noteq> CHR ''-'') r1") (auto simp: documentedForm_def)
  then have a2: "identifierTail s = r2" using a1 by (simp add: identifierTail_def afterFirst_def)
  have s1: "k1 @ d1 # r1 = s"
    using takeWhile_dropWhile_id [of "\<lambda>x. x \<noteq> CHR '':''" s] c1 by (simp add: k1_def)
  have s2: "k2 @ d2 # r2 = r1"
    using takeWhile_dropWhile_id [of "\<lambda>x. x \<noteq> CHR ''-''" r1] c2 by (simp add: k2_def)
  have s3: "s = (k1 @ d1 # k2 @ [d2]) @ r2"
    unfolding s1 [symmetric] s2 [symmetric] by simp
  have "drop (length s - length r2) s = r2"
    unfolding s3 by simp
  then show ?thesis using a2 by simp
qed

lemma run_ovalRegex:
  "run ovalRegex s 0 (None, None) =
     (if documentedForm s \<and> CHR 0x0A \<notin> set (identifierTail s)
      then Some (length s,
                 Some (length s - length (identifierTail s)),
                 Some (length s - length (identifierTail s)
                       + length (takeWhile (\<lambda>c. c \<noteq> CHR '':'') (identifierTail s))))
      else None)"
proof (cases "dropWhile (\<lambda>x. x \<noteq> CHR '':'') s")
  case Nil
  then have "CHR '':'' \<notin> set s" by auto
  then have "\<not> documentedForm s" by (simp add: documentedForm_def)
  then show ?thesis unfolding run_ovalRegex_unfold Nil by simp
next
  case c1: (Cons d1 r1)
  have a1: "afterFirst CHR '':'' s = r1" unfolding afterFirst_def c1 by simp
  show ?thesis
  proof (cases "dropWhile (\<lambda>x. x \<noteq> CHR ''-'') r1")
    case Nil
    then have "CHR ''-'' \<notin> set r1" by auto
    then have "\<not> documentedForm s" by (simp add: documentedForm_def a1)
    then show ?thesis unfolding run_ovalRegex_unfold c1 list.case Nil by simp
  next
    case c2: (Cons d2 r2)
    have "identifierTail s = afterFirst CHR ''-'' r1" by (simp add: identifierTail_def a1)
    also have "\<dots> = r2" unfolding afterFirst_def c2 by simp
    finally have a2: "identifierTail s = r2" .
    have "CHR '':'' \<in> set s"
      using c1 by (rule dropWhile_Cons_mem)
    moreover have "CHR ''-'' \<in> set r1"
      using c2 by (rule dropWhile_Cons_mem)
    ultimately have "documentedForm s = (CHR '':'' \<in> set r2)"
      unfolding documentedForm_def a1 a2 by simp
    then show ?thesis unfolding run_ovalRegex_unfold c1 c2 list.case a2 by simp
  qed
qed

lemma FindStringSubmatch_ovalRegex:
  "FindStringSubmatch ovalRegex s =
     (if documentedForm s \<and> CHR 0x0A \<notin> set (identifierTail s)
      then [s, takeWhile (\<lambda>c. c \<noteq> CHR '':'') (identifierTail s)]
      else [])"
proof -
  have se: "search ovalRegex s 0 =
      (case run ovalRegex s 0 (None, None) of Some m \<Rightarrow> Some (0, m) | None \<Rightarrow> None)"
    using search_BeginText [of "tl ovalRegex" s] by (simp add: ovalRegex_def)
  show ?thesis
  proof (cases "documentedForm s \<and> CHR 0x0A \<notin> set (identifierTail s)")
    case True
    then show ?thesis
      unfolding FindStringSubmatch_def se run_ovalRegex
      by (simp add: slice_def drop_identifierTail takeWhile_eq_take [symmetric])
  next
    case False
    then show ?thesis
      unfolding FindStringSubmatch_def se run_ovalRegex by auto
  qed
qed

section \<open>The identifier normalizer\<close>

text \<open>
  \<open>parseCheck\<close> in closed form: it depends on the trimmed \<open>name\<close> attribute only,
  and the expression matches exactly the texts of the documented form that have no line
  feed after the hyphen that ends the namespace.
\<close>

lemma parseCheck_eq:
  "parseCheck check =
     (let t = TrimSpace (SelectAttr check ''name'') in
      if t = [] then ([], Some ErrNoName)
      else if documentedForm t \<and> CHR 0x0A \<notin> set (identifierTail t)
      then (takeWhile (\<lambda>c. c \<noteq> CHR '':'') (identifierTail t), None)
      else ([], Some (ErrUnexpectedFormat t)))"
  by (simp add: parseCheck_def Let_def FindStringSubmatch_ovalRegex)

text \<open>
  \<open>documentedForm\<close> says what the specification's form says: the text splits into a
  prefix, a colon, a namespace, a hyphen, a short name, a colon and a suffix.
\<close>

lemma afterFirst_suffix: "\<exists>m. afterFirst c (a @ c # b) = m @ b"
proof (induction a)
  case Nil
  show ?case by (simp add: afterFirst_def)
next
  case (Cons x a)
  show ?case
  proof (cases "x = c")
    case True
    have "afterFirst c ((x # a) @ c # b) = (a @ [c]) @ b"
      using True by (simp add: afterFirst_def)
    then show ?thesis by blast
  next
    case False
    then have "afterFirst c ((x # a) @ c # b) = afterFirst c (a @ c # b)"
      by (simp add: afterFirst_def)
    then show ?thesis using Cons by simp
  qed
qed

lemma afterFirst_split: "c \<in> set s \<Longrightarrow> \<exists>a. s = a @ c # afterFirst c s"
proof (induction s)
  case Nil
  then show ?case by simp
next
  case (Cons x s)
  show ?case
  proof (cases "x = c")
    case True
    then have "x # s = [] @ c # afterFirst c (x # s)" by (simp add: afterFirst_def)
    then show ?thesis by blast
  next
    case False
    then obtain a where a: "s = a @ c # afterFirst c s" using Cons by auto
    have "afterFirst c (x # s) = afterFirst c s" using False by (simp add: afterFirst_def)
    then have "x # s = (x # a) @ c # afterFirst c (x # s)" using a by simp
    then show ?thesis by blast
  qed
qed

lemma documentedForm_iff:
  "documentedForm s =
     (\<exists>p n sn sf. s = p @ '':'' @ n @ ''-'' @ sn @ '':'' @ sf)"
proof
  assume df: "documentedForm s"
  obtain p where p: "s = p @ CHR '':'' # afterFirst CHR '':'' s"
    using df afterFirst_split [of "CHR '':''" s] by (auto simp: documentedForm_def)
  obtain n where n: "afterFirst CHR '':'' s = n @ CHR ''-'' # identifierTail s"
    using df afterFirst_split [of "CHR ''-''" "afterFirst CHR '':'' s"]
    by (auto simp: documentedForm_def identifierTail_def)
  obtain sn sf where t: "identifierTail s = sn @ CHR '':'' # sf"
    using df split_list [of "CHR '':''" "identifierTail s"] by (auto simp: documentedForm_def)
  have "s = p @ '':'' @ n @ ''-'' @ sn @ '':'' @ sf"
    by (subst p, subst n, subst t, simp)
  then show "\<exists>p n sn sf. s = p @ '':'' @ n @ ''-'' @ sn @ '':'' @ sf" by blast
next
  assume "\<exists>p n sn sf. s = p @ '':'' @ n @ ''-'' @ sn @ '':'' @ sf"
  then obtain p n sn sf where s: "s = p @ CHR '':'' # (n @ CHR ''-'' # (sn @ CHR '':'' # sf))"
    by auto
  obtain m1 where m1: "afterFirst CHR '':'' s = m1 @ (n @ CHR ''-'' # (sn @ CHR '':'' # sf))"
    unfolding s using afterFirst_suffix by blast
  have "afterFirst CHR '':'' s = (m1 @ n) @ CHR ''-'' # (sn @ CHR '':'' # sf)"
    using m1 by simp
  then obtain m2 where m2: "identifierTail s = m2 @ (sn @ CHR '':'' # sf)"
    unfolding identifierTail_def using afterFirst_suffix by metis
  have "CHR '':'' \<in> set s" by (subst s) simp
  moreover have "CHR ''-'' \<in> set (afterFirst CHR '':'' s)" by (subst m1) simp
  moreover have "CHR '':'' \<in> set (identifierTail s)" by (subst m2) simp
  ultimately show "documentedForm s" unfolding documentedForm_def by blast
qed

text \<open>
  C8, as the specification states it, fails: the identifier \<open>a:b-c\<newline>:d\<close> (a line
  feed between \<open>c\<close> and the second colon) is not empty after trimming and has the
  documented colon-and-hyphen delimited form, and yet \<open>parseCheck\<close> returns the
  malformed-identifier error for it, because \<open>.\<close> does not match a line feed.
\<close>

theorem parseCheck_line_feed_counterexample:
  "TrimSpace (SelectAttr (contentRef_node (''a:b-c'' @ [CHR 0x0A] @ '':d'')) ''name'')
     = ''a:b-c'' @ [CHR 0x0A] @ '':d'' \<and>
   documentedForm (''a:b-c'' @ [CHR 0x0A] @ '':d'') \<and>
   parseCheck (contentRef_node (''a:b-c'' @ [CHR 0x0A] @ '':d''))
     = ([], Some (ErrUnexpectedFormat (''a:b-c'' @ [CHR 0x0A] @ '':d'')))"
  by code_simp

text \<open>
  C8, amended: with \<open>t\<close> the trimmed \<open>name\<close> attribute, \<open>parseCheck\<close> returns the
  missing-identifier error when \<open>t\<close> is empty; the malformed-identifier error, naming
  \<open>t\<close>, when \<open>t\<close> is not empty and either lacks the documented form (in particular when
  it has no colon) or has a line feed after the first hyphen that follows its first
  colon; and otherwise, with no error, the text between that hyphen and the next colon.
\<close>

theorem parseCheck_failures:
  assumes "TrimSpace (SelectAttr check ''name'') = t"
  shows "(t = [] \<longrightarrow> parseCheck check = ([], Some ErrNoName)) \<and>
         (t \<noteq> [] \<and> (\<not> documentedForm t \<or> CHR 0x0A \<in> set (identifierTail t))
            \<longrightarrow> parseCheck check = ([], Some (ErrUnexpectedFormat t))) \<and>
         (t \<noteq> [] \<and> CHR '':'' \<notin> set t
            \<longrightarrow> parseCheck check = ([], Some (ErrUnexpectedFormat t))) \<and>
         (t \<noteq> [] \<and> documentedForm t \<and> CHR 0x0A \<notin> set (identifierTail t)
            \<longrightarrow> parseCheck check = (takeWhile (\<lambda>c. c \<noteq> CHR '':'') (identifierTail t), None))"
  using assms by (auto simp: parseCheck_eq Let_def documentedForm_def)

theorem parseCheck_failures_witness:
  "TrimSpace (SelectAttr (contentRef_node [CHR 0x20, CHR 0x09, CHR 0xC2, CHR 0xA0]) ''name'') = [] \<and>
   parseCheck (contentRef_node [CHR 0x20, CHR 0x09, CHR 0xC2, CHR 0xA0]) = ([], Some ErrNoName) \<and>
   TrimSpace (SelectAttr (contentRef_node ''sshd_enabled'') ''name'') = ''sshd_enabled'' \<and>
   parseCheck (contentRef_node ''sshd_enabled'')
     = ([], Some (ErrUnexpectedFormat ''sshd_enabled'')) \<and>
   TrimSpace (SelectAttr (contentRef_node '' oval:ssg-X:def:1 '') ''name'') = ''oval:ssg-X:def:1'' \<and>
   documentedForm ''oval:ssg-X:def:1'' \<and>
   parseCheck (contentRef_node '' oval:ssg-X:def:1 '') = (''X'', None)"
proof -
  have a: "TrimSpace (SelectAttr (contentRef_node [CHR 0x20, CHR 0x09, CHR 0xC2, CHR 0xA0]) ''name'') = []"
    by code_simp
  have b: "TrimSpace (SelectAttr (contentRef_node ''sshd_enabled'') ''name'') = ''sshd_enabled''"
    by code_simp
  have b': "CHR '':'' \<notin> set ''sshd_enabled''" by simp
  have c: "TrimSpace (SelectAttr (contentRef_node '' oval:ssg-X:def:1 '') ''name'')
      = ''oval:ssg-X:def:1''"
    by code_simp
  have c1: "documentedForm ''oval:ssg-X:def:1''" by code_simp
  have c2: "CHR 0x0A \<notin> set (identifierTail ''oval:ssg-X:def:1'')" by code_simp
  have c3: "takeWhile (\<lambda>c. c \<noteq> CHR '':'') (identifierTail ''oval:ssg-X:def:1'') = ''X''"
    by code_simp
  show ?thesis
    using a b b' c c1 c2 c3 parseCheck_failures [OF a] parseCheck_failures [OF b]
      parseCheck_failures [OF c]
    by simp
qed

section \<open>The policy check set is the set of the policy's check identifiers\<close>

lemma Has_LoadPolicy_checks:
  "Has (LoadPolicy_checks c cs) s = (Has c s \<or> s \<in> ID ` set cs)"
  by (induction cs arbitrary: c) (auto simp: Has_def split: option.splits)

lemma Has_LoadPolicy:
  "Has (LoadPolicy c pol) s = (Has c s \<or> (\<exists>rule \<in> set pol. s \<in> ID ` set (Checks rule)))"
  by (induction pol arbitrary: c) (auto simp: Has_LoadPolicy_checks)

lemma Has_newChecks: "\<not> Has newChecks s"
  by (simp add: Has_def newChecks_def)

text \<open>
  C9: the policy check set built by \<open>LoadPolicy\<close> from the rules
  \<open>[{checks: [A, B]}, {checks: [B, C]}]\<close> answers \<open>Has\<close> with true for \<open>A\<close>, \<open>B\<close>
  and \<open>C\<close> and with false for every other string; the identifier \<open>B\<close>, declared by
  both rules, does no harm.
\<close>

theorem LoadPolicy_duplicates_collapse:
  "Has (LoadPolicy newChecks
          [\<lparr>Checks = [\<lparr>ID = ''A''\<rparr>, \<lparr>ID = ''B''\<rparr>]\<rparr>,
           \<lparr>Checks = [\<lparr>ID = ''B''\<rparr>, \<lparr>ID = ''C''\<rparr>]\<rparr>]) s
   = (s = ''A'' \<or> s = ''B'' \<or> s = ''C'')"
  by (auto simp: Has_LoadPolicy Has_def newChecks_def)

section \<open>The status mapper\<close>

text \<open>
  C2: for every rule-result whose \<open>result\<close> element holds the token \<open>t\<close>,
  \<open>mapResultStatus\<close> returns Pass for \<open>pass\<close> and \<open>fixed\<close>, Fail for \<open>fail\<close>, Error
  for \<open>notselected\<close>, \<open>notapplicable\<close>, \<open>error\<close> and \<open>unknown\<close>, each with no error,
  and Invalid with an error that names \<open>t\<close> for every other token.
\<close>

theorem mapResultStatus_tokens:
  assumes "SelectElement result (Child [] ''result'') = Some resultEl"
    and "InnerText resultEl = t"
  shows "(t = ''pass'' \<or> t = ''fixed'' \<longrightarrow> mapResultStatus result = (ResultPass, None)) \<and>
         (t = ''fail'' \<longrightarrow> mapResultStatus result = (ResultFail, None)) \<and>
         (t = ''notselected'' \<or> t = ''notapplicable'' \<or> t = ''error'' \<or> t = ''unknown''
            \<longrightarrow> mapResultStatus result = (ResultError, None)) \<and>
         (t \<notin> {''pass'', ''fixed'', ''fail'', ''notselected'', ''notapplicable'',
                 ''error'', ''unknown''}
            \<longrightarrow> mapResultStatus result = (ResultInvalid, Some (ErrNoMatch t)))"
  using assms by (simp add: mapResultStatus_def Let_def)

theorem mapResultStatus_tokens_witness:
  "SelectElement (ruleResult_node ''rule1'' ''fixed'') (Child [] ''result'')
     = Some (Element [] ''result'' [] [Text ''fixed'']) \<and>
   InnerText (Element [] ''result'' [] [Text ''fixed'']) = ''fixed'' \<and>
   mapResultStatus (ruleResult_node ''rule1'' ''fixed'') = (ResultPass, None) \<and>
   SelectElement (ruleResult_node ''rule1'' ''notchecked'') (Child [] ''result'')
     = Some (Element [] ''result'' [] [Text ''notchecked'']) \<and>
   InnerText (Element [] ''result'' [] [Text ''notchecked'']) = ''notchecked'' \<and>
   mapResultStatus (ruleResult_node ''rule1'' ''notchecked'')
     = (ResultInvalid, Some (ErrNoMatch ''notchecked''))"
proof -
  have a: "SelectElement (ruleResult_node ''rule1'' ''fixed'') (Child [] ''result'')
      = Some (Element [] ''result'' [] [Text ''fixed''])"
    by (simp add: ruleResult_node_def SelectElement_def)
  have b: "InnerText (Element [] ''result'' [] [Text ''fixed'']) = ''fixed''" by simp
  have c: "SelectElement (ruleResult_node ''rule1'' ''notchecked'') (Child [] ''result'')
      = Some (Element [] ''result'' [] [Text ''notchecked''])"
    by (simp add: ruleResult_node_def SelectElement_def)
  have d: "InnerText (Element [] ''result'' [] [Text ''notchecked'']) = ''notchecked''" by simp
  show ?thesis
    using a b c d mapResultStatus_tokens [OF a b] mapResultStatus_tokens [OF c d] by simp
qed

section \<open>The relevant check of a rule\<close>

lemma ovalRefEl_loop_first:
  assumes "\<forall>x\<in>set pre. SelectAttr x ''system'' \<noteq> ovalCheckType"
    and "SelectAttr c ''system'' = ovalCheckType"
  shows "ovalRefEl_loop (pre @ c # post) = SelectElement c (Child ''xccdf-1.2'' ''check-content-ref'')"
  using assms by (induction pre) auto

lemma ovalRefEl_loop_none:
  "\<forall>x\<in>set checks. SelectAttr x ''system'' \<noteq> ovalCheckType \<Longrightarrow> ovalRefEl_loop checks = None"
  by (induction checks) auto

text \<open>
  C7: the first element in document order below a rule that is a \<open>check\<close> of the
  OVAL system decides the rule's relevant check, by its first \<open>check-content-ref\<close>
  child, whatever follows it (further OVAL checks included) and whatever checks of
  other systems stand before it.
\<close>

theorem first_oval_check_decides:
  assumes "descendants rule = before @ c # after"
    and "named ''xccdf-1.2'' ''check'' c"
    and "SelectAttr c ''system'' = ovalCheckType"
    and "\<forall>x\<in>set before. \<not> (named ''xccdf-1.2'' ''check'' x \<and> SelectAttr x ''system'' = ovalCheckType)"
  shows "ovalRefEl_loop (SelectElements rule (Descendant ''xccdf-1.2'' ''check''))
       = SelectElement c (Child ''xccdf-1.2'' ''check-content-ref'')"
proof -
  have "SelectElements rule (Descendant ''xccdf-1.2'' ''check'')
      = filter (named ''xccdf-1.2'' ''check'') before @ c # filter (named ''xccdf-1.2'' ''check'') after"
    using assms(1,2) by simp
  moreover have "\<forall>x\<in>set (filter (named ''xccdf-1.2'' ''check'') before).
      SelectAttr x ''system'' \<noteq> ovalCheckType"
    using assms(4) by auto
  ultimately show ?thesis using assms(3) by (simp only: ovalRefEl_loop_first)
qed

theorem first_oval_check_decides_witness:
  "descendants threeChecksRule =
     [check_node ''http://scap.nist.gov/schema/ocil/2''
        [contentRef_node ''ocil:ssg-first:questionnaire:1''],
      contentRef_node ''ocil:ssg-first:questionnaire:1'']
     @ check_node ovalCheckType [contentRef_node ''oval:ssg-second:def:1'']
     # [contentRef_node ''oval:ssg-second:def:1'',
        check_node ovalCheckType [contentRef_node ''oval:ssg-third:def:1''],
        contentRef_node ''oval:ssg-third:def:1''] \<and>
   ovalRefEl_loop (SelectElements threeChecksRule (Descendant ''xccdf-1.2'' ''check''))
     = Some (contentRef_node ''oval:ssg-second:def:1'')"
proof -
  let ?first = "check_node ''http://scap.nist.gov/schema/ocil/2''
        [contentRef_node ''ocil:ssg-first:questionnaire:1'']"
  let ?c = "check_node ovalCheckType [contentRef_node ''oval:ssg-second:def:1'']"
  have d: "descendants threeChecksRule =
     [?first, contentRef_node ''ocil:ssg-first:questionnaire:1'']
     @ ?c
     # [contentRef_node ''oval:ssg-second:def:1'',
        check_node ovalCheckType [contentRef_node ''oval:ssg-third:def:1''],
        contentRef_node ''oval:ssg-third:def:1'']"
    by code_simp
  have n: "named ''xccdf-1.2'' ''check'' ?c" by code_simp
  have s: "SelectAttr ?c ''system'' = ovalCheckType" by code_simp
  have b1: "SelectAttr ?first ''system'' \<noteq> ovalCheckType" by code_simp
  have b2: "\<not> named ''xccdf-1.2'' ''check'' (contentRef_node ''ocil:ssg-first:questionnaire:1'')"
    by code_simp
  have b: "\<forall>x\<in>set [?first, contentRef_node ''ocil:ssg-first:questionnaire:1''].
      \<not> (named ''xccdf-1.2'' ''check'' x \<and> SelectAttr x ''system'' = ovalCheckType)"
    using b1 b2 by simp
  have r: "SelectElement ?c (Child ''xccdf-1.2'' ''check-content-ref'')
      = Some (contentRef_node ''oval:ssg-second:def:1'')"
    by code_simp
  show ?thesis using d first_oval_check_decides [OF d n s b] r by simp
qed

section \<open>The correlation loop\<close>

lemma scanned_simps:
  "ScanSystem (scanned doc table) c p = None"
  "Open (scanned doc table) (Clean (scanned doc table) path) = Inr []"
  "ParseContent (scanned doc table) b = Inr doc"
  "NewRuleHashTable (scanned doc table) d = table"
  "Now (scanned doc table) n = n"
  by (simp_all add: scanned_def)

lemma mapResultStatus_has_result:
  "mapResultStatus result = (m, None) \<Longrightarrow> SelectElement result (Child [] ''result'') \<noteq> None"
  by (auto simp: mapResultStatus_def split: option.splits)

lemma GetResults_body_no_panic:
  "GetResults_body ext cfg policyChecks target ruleTable result acc clock \<noteq> Panic"
  by (auto simp: GetResults_body_def Let_def
      split: option.splits prod.splits dest: mapResultStatus_has_result)

lemma GetResults_body_Return:
  "GetResults_body ext cfg policyChecks target ruleTable result acc clock = Return r err
   \<Longrightarrow> r = PVPResult_empty \<and> err \<noteq> None"
  by (auto simp: GetResults_body_def Let_def split: option.splits prod.splits if_splits)

lemma GetResults_loop_no_panic:
  "GetResults_loop ext cfg policyChecks target ruleTable results acc clock \<noteq> Panic"
proof (induction results arbitrary: acc clock)
  case Nil
  show ?case by simp
next
  case (Cons result results)
  then show ?case
    using GetResults_body_no_panic [of ext cfg policyChecks target ruleTable result acc clock]
    by (simp split: flow.splits)
qed

lemma GetResults_loop_Return:
  "GetResults_loop ext cfg policyChecks target ruleTable results acc clock = Return r err
   \<Longrightarrow> r = PVPResult_empty \<and> err \<noteq> None"
proof (induction results arbitrary: acc clock)
  case Nil
  then show ?case by simp
next
  case (Cons result results)
  then show ?case
    using GetResults_body_Return [of ext cfg policyChecks target ruleTable result acc clock]
    by (auto split: flow.splits)
qed

lemma GetResults_loop_append:
  "GetResults_loop ext cfg policyChecks target ruleTable (xs @ ys) acc clock =
     (case GetResults_loop ext cfg policyChecks target ruleTable xs acc clock of
        Next acc' clock' \<Rightarrow> GetResults_loop ext cfg policyChecks target ruleTable ys acc' clock'
      | Return r err \<Rightarrow> Return r err
      | Panic \<Rightarrow> Panic)"
  by (induction xs arbitrary: acc clock) (auto split: flow.splits)

text \<open>
  C5: \<open>GetResults\<close> always returns, and whenever it returns an error the result
  beside it is the empty \<open>PVPResult\<close>, whatever had been gathered before.
\<close>

theorem GetResults_error_has_no_results:
  "(\<exists>r e. GetResults ext cfg pol = Some (r, e)) \<and>
   (GetResults ext cfg pol = Some (r, Some err) \<longrightarrow> r = PVPResult_empty)"
proof -
  have "\<exists>r e. GetResults ext cfg pol = Some (r, e)"
    using GetResults_loop_no_panic
    by (auto simp: GetResults_def Let_def split: option.splits sum.splits flow.splits)
  moreover have "GetResults ext cfg pol = Some (r, Some err) \<longrightarrow> r = PVPResult_empty"
    by (auto simp: GetResults_def Let_def split: option.splits sum.splits flow.splits
        dest: GetResults_loop_Return)
  ultimately show ?thesis by blast
qed

theorem GetResults_error_has_no_results_witness:
  "GetResults (scanned notcheckedDoc [''rule1'' \<mapsto> sshdRule]) sampleConfig (policyOf [''sshd_enabled-1''])
     = Some (PVPResult_empty, Some (ErrNoMatch ''notchecked'')) \<and>
   GetResults_loop (scanned notcheckedDoc [''rule1'' \<mapsto> sshdRule]) sampleConfig
       (LoadPolicy newChecks (policyOf [''sshd_enabled-1''])) ''host1'' [''rule1'' \<mapsto> sshdRule]
       [ruleResult_node ''rule1'' ''fail''] PVPResult_empty 0
     = Next \<lparr>ObservationsByCheck =
               [hostObservation ''rule1'' ''sshd_enabled-1'' ''host1'' ResultFail ''fail'' 0]\<rparr> 2"
proof -
  have e: "GetResults (scanned notcheckedDoc [''rule1'' \<mapsto> sshdRule]) sampleConfig
      (policyOf [''sshd_enabled-1'']) = Some (PVPResult_empty, Some (ErrNoMatch ''notchecked''))"
    by code_simp
  have l: "GetResults_loop (scanned notcheckedDoc [''rule1'' \<mapsto> sshdRule]) sampleConfig
       (LoadPolicy newChecks (policyOf [''sshd_enabled-1''])) ''host1'' [''rule1'' \<mapsto> sshdRule]
       [ruleResult_node ''rule1'' ''fail''] PVPResult_empty 0
     = Next \<lparr>ObservationsByCheck =
               [hostObservation ''rule1'' ''sshd_enabled-1'' ''host1'' ResultFail ''fail'' 0]\<rparr> 2"
    by code_simp
  show ?thesis
    using e l GetResults_error_has_no_results
      [of "scanned notcheckedDoc [''rule1'' \<mapsto> sshdRule]" sampleConfig
          "policyOf [''sshd_enabled-1'']" PVPResult_empty "ErrNoMatch ''notchecked''"]
    by simp
qed

text \<open>
  C3: when the scan succeeds and the results file parses to a document without a
  \<open>target\<close> element, \<open>GetResults\<close> returns the empty result and the missing-target
  error, whatever rule-results the document holds and whatever the policy is.
\<close>

theorem GetResults_missing_target:
  assumes "ScanSystem ext cfg (Parameters_Profile cfg) = None"
    and "Open ext (Clean ext (Files_ARF cfg)) = Inr file"
    and "ParseContent ext file = Inr doc"
    and "SelectElement doc (Descendant [] ''target'') = None"
  shows "GetResults ext cfg pol = Some (PVPResult_empty, Some ErrNoTarget)"
  using assms by (simp add: GetResults_def)

theorem GetResults_missing_target_witness:
  "SelectElement noTargetDoc (Descendant [] ''target'') = None \<and>
   SelectElements noTargetDoc (Descendant [] ''rule-result'') = [ruleResult_node ''rule1'' ''fail''] \<and>
   GetResults (scanned noTargetDoc [''rule1'' \<mapsto> sshdRule]) sampleConfig (policyOf [''sshd_enabled-1''])
     = Some (PVPResult_empty, Some ErrNoTarget)"
proof -
  have h: "SelectElement noTargetDoc (Descendant [] ''target'') = None" by code_simp
  have r: "SelectElements noTargetDoc (Descendant [] ''rule-result'') = [ruleResult_node ''rule1'' ''fail'']"
    by code_simp
  show ?thesis
    using h r GetResults_missing_target [OF scanned_simps(1) scanned_simps(2) scanned_simps(3) h]
    by simp
qed

text \<open>
  C4: when the loop reaches a rule-result whose rule has a relevant check and
  \<open>parseCheck\<close> fails on it, \<open>GetResults\<close> returns the empty result and that error,
  for every policy: the policy check set is not asked, and the rule-results after it
  are not looked at.
\<close>

theorem GetResults_malformed_identifier_aborts:
  assumes "ScanSystem ext cfg (Parameters_Profile cfg) = None"
    and "Open ext (Clean ext (Files_ARF cfg)) = Inr file"
    and "ParseContent ext file = Inr doc"
    and "SelectElement doc (Descendant [] ''target'') = Some targetEl"
    and "SelectElements doc (Descendant [] ''rule-result'') = pre @ result # post"
    and "GetResults_loop ext cfg (LoadPolicy newChecks pol) (InnerText targetEl)
           (NewRuleHashTable ext doc) pre PVPResult_empty 0 = Next acc clock"
    and "NewRuleHashTable ext doc (SelectAttr result ''idref'') = Some rule"
    and "ovalRefEl_loop (SelectElements rule (Descendant ''xccdf-1.2'' ''check'')) = Some ovalRefEl"
    and "parseCheck ovalRefEl = (x, Some err)"
  shows "GetResults ext cfg pol = Some (PVPResult_empty, Some err)"
proof -
  have "GetResults_body ext cfg (LoadPolicy newChecks pol) (InnerText targetEl)
          (NewRuleHashTable ext doc) result acc clock = Return PVPResult_empty (Some err)"
    using assms(7-9) by (simp add: GetResults_body_def)
  then have "GetResults_loop ext cfg (LoadPolicy newChecks pol) (InnerText targetEl)
          (NewRuleHashTable ext doc) (pre @ result # post) PVPResult_empty 0
        = Return PVPResult_empty (Some err)"
    using assms(6) by (simp add: GetResults_loop_append)
  then show ?thesis using assms(1-5) by (simp add: GetResults_def Let_def del: SelectElements.simps)
qed

theorem GetResults_malformed_identifier_aborts_witness:
  "parseCheck (contentRef_node ''sshd_enabled'') = ([], Some (ErrUnexpectedFormat ''sshd_enabled'')) \<and>
   GetResults_loop (scanned malformedDoc [''rule1'' \<mapsto> sshdRule, ''rule2'' \<mapsto> malformedRule])
       sampleConfig (LoadPolicy newChecks (policyOf [''sshd_enabled-1''])) ''host1''
       [''rule1'' \<mapsto> sshdRule, ''rule2'' \<mapsto> malformedRule]
       [ruleResult_node ''rule1'' ''fail''] PVPResult_empty 0
     = Next \<lparr>ObservationsByCheck =
               [hostObservation ''rule1'' ''sshd_enabled-1'' ''host1'' ResultFail ''fail'' 0]\<rparr> 2 \<and>
   GetResults (scanned malformedDoc [''rule1'' \<mapsto> sshdRule, ''rule2'' \<mapsto> malformedRule])
       sampleConfig (policyOf [''sshd_enabled-1''])
     = Some (PVPResult_empty, Some (ErrUnexpectedFormat ''sshd_enabled''))"
proof -
  let ?table = "[''rule1'' \<mapsto> sshdRule, ''rule2'' \<mapsto> malformedRule]"
  let ?ext = "scanned malformedDoc ?table"
  have t: "SelectElement malformedDoc (Descendant [] ''target'') = Some (target_node ''host1'')"
    by code_simp
  have rs: "SelectElements malformedDoc (Descendant [] ''rule-result'')
      = [ruleResult_node ''rule1'' ''fail''] @ ruleResult_node ''rule2'' ''pass''
          # [ruleResult_node ''rule1'' ''pass'']"
    by code_simp
  have it: "InnerText (target_node ''host1'') = ''host1''" by code_simp
  have l: "GetResults_loop ?ext sampleConfig (LoadPolicy newChecks (policyOf [''sshd_enabled-1'']))
        (InnerText (target_node ''host1'')) (NewRuleHashTable ?ext malformedDoc)
        [ruleResult_node ''rule1'' ''fail''] PVPResult_empty 0
     = Next \<lparr>ObservationsByCheck =
               [hostObservation ''rule1'' ''sshd_enabled-1'' ''host1'' ResultFail ''fail'' 0]\<rparr> 2"
    by code_simp
  have ix: "NewRuleHashTable ?ext malformedDoc (SelectAttr (ruleResult_node ''rule2'' ''pass'') ''idref'')
      = Some malformedRule"
    by code_simp
  have el: "ovalRefEl_loop (SelectElements malformedRule (Descendant ''xccdf-1.2'' ''check''))
      = Some (contentRef_node ''sshd_enabled'')"
    by code_simp
  have pc: "parseCheck (contentRef_node ''sshd_enabled'')
      = ([], Some (ErrUnexpectedFormat ''sshd_enabled''))"
    by code_simp
  show ?thesis
    using pc l
      GetResults_malformed_identifier_aborts
        [OF scanned_simps(1) scanned_simps(2) scanned_simps(3) t rs l ix el pc]
    by (simp add: it scanned_simps)
qed

text \<open>
  C6: a rule-result whose rule is in the index and whose relevant check normalizes,
  without error, to an identifier outside the policy check set can be struck from the
  document without changing what the loop does: it adds no observation, reads no clock
  and raises no error. With the identifier \<open>oval:ssg-X:def:1\<close> and the policy check set
  \<open>{Y}\<close>, \<open>GetResults\<close> returns the empty result and no error.
\<close>

theorem skipped_rule_result_leaves_no_trace:
  assumes "ruleTable (SelectAttr result ''idref'') = Some rule"
    and "ovalRefEl_loop (SelectElements rule (Descendant ''xccdf-1.2'' ''check'')) = Some ovalRefEl"
    and "parseCheck ovalRefEl = (x, None)"
    and "\<not> Has policyChecks x"
  shows "GetResults_loop ext cfg policyChecks target ruleTable (pre @ result # post) acc clock
       = GetResults_loop ext cfg policyChecks target ruleTable (pre @ post) acc clock"
proof -
  have "GetResults_body ext cfg policyChecks target ruleTable result acc' clock' = Next acc' clock'"
    for acc' clock'
    using assms by (simp add: GetResults_body_def)
  then show ?thesis by (simp add: GetResults_loop_append split: flow.splits)
qed

theorem skipped_rule_result_leaves_no_trace_witness:
  "parseCheck (contentRef_node ''oval:ssg-X:def:1'') = (''X'', None) \<and>
   \<not> Has (LoadPolicy newChecks (policyOf [''Y''])) ''X'' \<and>
   GetResults_loop (scanned xDoc [''ruleX'' \<mapsto> xRule]) sampleConfig
       (LoadPolicy newChecks (policyOf [''Y''])) ''host1'' [''ruleX'' \<mapsto> xRule]
       [ruleResult_node ''ruleX'' ''pass''] PVPResult_empty 0
     = Next PVPResult_empty 0 \<and>
   GetResults (scanned xDoc [''ruleX'' \<mapsto> xRule]) sampleConfig (policyOf [''Y''])
     = Some (PVPResult_empty, None)"
proof -
  have ix: "[''ruleX'' \<mapsto> xRule] (SelectAttr (ruleResult_node ''ruleX'' ''pass'') ''idref'') = Some xRule"
    by code_simp
  have el: "ovalRefEl_loop (SelectElements xRule (Descendant ''xccdf-1.2'' ''check''))
      = Some (contentRef_node ''oval:ssg-X:def:1'')"
    by code_simp
  have pc: "parseCheck (contentRef_node ''oval:ssg-X:def:1'') = (''X'', None)" by code_simp
  have nh: "\<not> Has (LoadPolicy newChecks (policyOf [''Y''])) ''X''" by code_simp
  have g: "GetResults (scanned xDoc [''ruleX'' \<mapsto> xRule]) sampleConfig (policyOf [''Y''])
     = Some (PVPResult_empty, None)"
    by code_simp
  show ?thesis
    using pc nh g
      skipped_rule_result_leaves_no_trace
        [where ruleTable = "[''ruleX'' \<mapsto> xRule]"
           and result = "ruleResult_node ''ruleX'' ''pass''" and rule = xRule
           and ovalRefEl = "contentRef_node ''oval:ssg-X:def:1''" and x = "''X''"
           and policyChecks = "LoadPolicy newChecks (policyOf [''Y''])"
           and ext = "scanned xDoc [''ruleX'' \<mapsto> xRule]" and cfg = sampleConfig
           and target = "''host1''" and pre = "[]" and post = "[]"
           and acc = PVPResult_empty and clock = 0, OF ix el pc nh]
    by simp
qed

section \<open>The end-to-end scenario\<close>

text \<open>
  C1, as the specification states it, fails: \<open>oval:ssg-sshd_enabled-1:def:1\<close>
  normalizes to \<open>sshd_enabled-1\<close> (the group ends at the first colon after the hyphen,
  not at a hyphen), which the policy check set \<open>{sshd_enabled}\<close> does not hold, so
  \<open>GetResults\<close> returns no observation.
\<close>

theorem sshd_scenario_counterexample:
  "parseCheck (contentRef_node ''oval:ssg-sshd_enabled-1:def:1'') = (''sshd_enabled-1'', None) \<and>
   GetResults (scanned sshdDoc [''rule1'' \<mapsto> sshdRule]) sampleConfig (policyOf [''sshd_enabled''])
     = Some (PVPResult_empty, None)"
  by code_simp

text \<open>
  The identifier without the trailing \<open>-1\<close> does normalize to \<open>sshd_enabled\<close>.
\<close>

lemma parseCheck_sshd_enabled:
  "parseCheck (contentRef_node ''oval:ssg-sshd_enabled:def:1'') = (''sshd_enabled'', None)"
  by code_simp

text \<open>
  C1, amended: for a results document whose \<open>target\<close> element holds \<open>host1\<close>, whose
  only rule-result refers to \<open>rule1\<close> and holds \<open>fail\<close>, and whose rule \<open>rule1\<close> has
  the relevant check \<open>oval:ssg-sshd_enabled-1:def:1\<close>, correlated against a policy
  whose check set holds \<open>sshd_enabled-1\<close>, \<open>GetResults\<close> returns no error and exactly
  one observation: check ID \<open>sshd_enabled-1\<close>, one subject with result Fail and
  resource ID \<open>host1\<close>, and the reason \<open>openscap rule-result is fail\<close>.
\<close>

theorem sshd_scenario:
  assumes "ScanSystem ext cfg (Parameters_Profile cfg) = None"
    and "Open ext (Clean ext (Files_ARF cfg)) = Inr file"
    and "ParseContent ext file = Inr doc"
    and "SelectElement doc (Descendant [] ''target'') = Some targetEl"
    and "InnerText targetEl = ''host1''"
    and "SelectElements doc (Descendant [] ''rule-result'') = [result]"
    and "SelectAttr result ''idref'' = ''rule1''"
    and "NewRuleHashTable ext doc ''rule1'' = Some rule"
    and "ovalRefEl_loop (SelectElements rule (Descendant ''xccdf-1.2'' ''check'')) = Some ovalRefEl"
    and "SelectAttr ovalRefEl ''name'' = ''oval:ssg-sshd_enabled-1:def:1''"
    and "SelectElement result (Child [] ''result'') = Some resultEl"
    and "InnerText resultEl = ''fail''"
    and "Has (LoadPolicy newChecks pol) ''sshd_enabled-1''"
  shows "GetResults ext cfg pol =
     Some (\<lparr>ObservationsByCheck =
              [\<lparr>Title = ''rule1'', Methods = [''AUTOMATED''], Collected = Now ext 0,
                CheckID = ''sshd_enabled-1'',
                Subjects =
                  [\<lparr>Subject_Title = ''Host host1'', Type = ''inventory-item'',
                    ResourceID = ''host1'', EvaluatedOn = Now ext 1, Result = ResultFail,
                    Reason = ''openscap rule-result is fail'',
                    Props = [\<lparr>Name = ''hostname'', Value = ''host1''\<rparr>]\<rparr>],
                RelevantEvidences =
                  [\<lparr>Href = ''file://'' @ Files_ARF cfg, Description = ''ARF_FILE''\<rparr>]\<rparr>]\<rparr>,
           None)"
proof -
  have ts: "TrimSpace ''oval:ssg-sshd_enabled-1:def:1'' = ''oval:ssg-sshd_enabled-1:def:1''"
    by code_simp
  have fs: "FindStringSubmatch ovalRegex ''oval:ssg-sshd_enabled-1:def:1''
      = [''oval:ssg-sshd_enabled-1:def:1'', ''sshd_enabled-1'']"
    by code_simp
  have pc: "parseCheck ovalRefEl = (''sshd_enabled-1'', None)"
    by (simp add: parseCheck_def Let_def assms(10) ts fs)
  have ms: "mapResultStatus result = (ResultFail, None)"
    using assms(11,12) by (simp add: mapResultStatus_def)
  have body: "GetResults_body ext cfg (LoadPolicy newChecks pol) ''host1''
       (NewRuleHashTable ext doc) result PVPResult_empty 0
     = Next \<lparr>ObservationsByCheck =
              [\<lparr>Title = ''rule1'', Methods = [''AUTOMATED''], Collected = Now ext 0,
                CheckID = ''sshd_enabled-1'',
                Subjects =
                  [\<lparr>Subject_Title = ''Host host1'', Type = ''inventory-item'',
                    ResourceID = ''host1'', EvaluatedOn = Now ext 1, Result = ResultFail,
                    Reason = ''openscap rule-result is fail'',
                    Props = [\<lparr>Name = ''hostname'', Value = ''host1''\<rparr>]\<rparr>],
                RelevantEvidences =
                  [\<lparr>Href = ''file://'' @ Files_ARF cfg, Description = ''ARF_FILE''\<rparr>]\<rparr>]\<rparr> 2"
    using assms(7-9,11-13) pc ms
    by (simp add: GetResults_body_def PVPResult_empty_def)
  show ?thesis
    using assms(1-6) body by (simp add: GetResults_def Let_def del: SelectElements.simps)
qed

theorem sshd_scenario_witness:
  "SelectElement sshdDoc (Descendant [] ''target'') = Some (target_node ''host1'') \<and>
   SelectElements sshdDoc (Descendant [] ''rule-result'') = [ruleResult_node ''rule1'' ''fail''] \<and>
   ovalRefEl_loop (SelectElements sshdRule (Descendant ''xccdf-1.2'' ''check''))
     = Some (contentRef_node ''oval:ssg-sshd_enabled-1:def:1'') \<and>
   Has (LoadPolicy newChecks (policyOf [''sshd_enabled-1''])) ''sshd_enabled-1'' \<and>
   GetResults (scanned sshdDoc [''rule1'' \<mapsto> sshdRule]) sampleConfig (policyOf [''sshd_enabled-1''])
     = Some (\<lparr>ObservationsByCheck =
                [hostObservation ''rule1'' ''sshd_enabled-1'' ''host1'' ResultFail ''fail'' 0]\<rparr>,
             None)"
proof -
  let ?ext = "scanned sshdDoc [''rule1'' \<mapsto> sshdRule]"
  have t: "SelectElement sshdDoc (Descendant [] ''target'') = Some (target_node ''host1'')"
    by code_simp
  have it: "InnerText (target_node ''host1'') = ''host1''" by code_simp
  have rs: "SelectElements sshdDoc (Descendant [] ''rule-result'') = [ruleResult_node ''rule1'' ''fail'']"
    by code_simp
  have id: "SelectAttr (ruleResult_node ''rule1'' ''fail'') ''idref'' = ''rule1''" by code_simp
  have ix: "NewRuleHashTable ?ext sshdDoc ''rule1'' = Some sshdRule" by code_simp
  have el: "ovalRefEl_loop (SelectElements sshdRule (Descendant ''xccdf-1.2'' ''check''))
      = Some (contentRef_node ''oval:ssg-sshd_enabled-1:def:1'')"
    by code_simp
  have nm: "SelectAttr (contentRef_node ''oval:ssg-sshd_enabled-1:def:1'') ''name''
      = ''oval:ssg-sshd_enabled-1:def:1''"
    by code_simp
  have re: "SelectElement (ruleResult_node ''rule1'' ''fail'') (Child [] ''result'')
      = Some (Element [] ''result'' [] [Text ''fail''])"
    by code_simp
  have ir: "InnerText (Element [] ''result'' [] [Text ''fail'']) = ''fail''" by code_simp
  have hs: "Has (LoadPolicy newChecks (policyOf [''sshd_enabled-1''])) ''sshd_enabled-1''"
    by code_simp
  show ?thesis
    using t rs el hs
      sshd_scenario [OF scanned_simps(1) scanned_simps(2) scanned_simps(3)
        t it rs id ix el nm re ir hs]
    by (simp add: hostObservation_def scanned_simps sampleConfig_def)
qed

section \<open>The selections of a plugin\<close>

lemma ToMap_loop_keeps:
  "k = ''workspace'' \<or> k = ''profile'' \<Longrightarrow>
   fst (ToMap_loop configPath opts selections) k = selections k"
  by (induction opts arbitrary: selections) (auto split: option.splits)

lemma ToMap_loop_skip:
  "Option_Name opt = ''workspace'' \<or> Option_Name opt = ''profile'' \<Longrightarrow>
   ToMap_loop configPath (pre @ opt # post) selections
     = ToMap_loop configPath (pre @ post) selections"
  by (induction pre arbitrary: selections) (auto split: option.splits)

text \<open>
  C10: for every plugin id, every outcome of opening and parsing the manifest and every
  list of configuration options in it, the map \<open>ToMap\<close> returns (with or without an
  error) holds the receiver's \<open>Workspace\<close> under \<open>workspace\<close> and its \<open>Profile\<close> under
  \<open>profile\<close>. An option of the manifest named \<open>workspace\<close> or \<open>profile\<close> is skipped:
  wherever it stands in the configuration, required or not, with a default value or
  without, the loop over the options and \<open>ToMap\<close> itself return the same map and the
  same error as for the manifest without that option.
\<close>

theorem ToMap_workspace_profile:
  "fst (ToMap ext p pluginId) ''workspace'' = Some (Workspace p) \<and>
   fst (ToMap ext p pluginId) ''profile'' = Some (Profile p) \<and>
   (Option_Name opt = ''workspace'' \<or> Option_Name opt = ''profile'' \<longrightarrow>
      ToMap_loop configPath (pre @ opt # post) selections
        = ToMap_loop configPath (pre @ post) selections \<and>
      ToMap (ext\<lparr>Decode := (\<lambda>b. Inr \<lparr>Configuration = pre @ opt # post\<rparr>)\<rparr>) p pluginId
        = ToMap (ext\<lparr>Decode := (\<lambda>b. Inr \<lparr>Configuration = pre @ post\<rparr>)\<rparr>) p pluginId)"
proof -
  have entries:
    "fst (ToMap ext p pluginId) ''workspace'' = Some (Workspace p) \<and>
     fst (ToMap ext p pluginId) ''profile'' = Some (Profile p)"
    by (simp add: ToMap_def Let_def ToMap_loop_keeps split: sum.splits)
  have skipped:
    "ToMap (ext\<lparr>Decode := (\<lambda>b. Inr \<lparr>Configuration = pre @ opt # post\<rparr>)\<rparr>) p pluginId
       = ToMap (ext\<lparr>Decode := (\<lambda>b. Inr \<lparr>Configuration = pre @ post\<rparr>)\<rparr>) p pluginId"
    if "Option_Name opt = ''workspace'' \<or> Option_Name opt = ''profile''"
    using that by (simp add: ToMap_def Let_def ToMap_loop_skip split: sum.splits)
  show ?thesis using entries skipped by (simp add: ToMap_loop_skip)
qed

theorem ToMap_workspace_profile_witness:
  "Option_Name reservedOption = ''workspace'' \<and>
   Option_Required reservedOption \<and>
   Option_Default reservedOption = None \<and>
   ToMap (withManifest [reservedOption, plainOption]) sampleOptions ''openscap''
     = ToMap (withManifest [plainOption]) sampleOptions ''openscap'' \<and>
   snd (ToMap (withManifest [reservedOption, plainOption]) sampleOptions ''openscap'') = None \<and>
   fst (ToMap (withManifest [reservedOption, plainOption]) sampleOptions ''openscap'') ''n''
     = Some ''v'' \<and>
   fst (ToMap (withManifest [reservedOption, plainOption]) sampleOptions ''openscap'') ''workspace''
     = Some ''/ws'' \<and>
   fst (ToMap (withManifest [reservedOption, plainOption]) sampleOptions ''openscap'') ''profile''
     = Some ''cis''"
proof -
  have n: "Option_Name reservedOption = ''workspace''" by (simp add: reservedOption_def)
  have r: "Option_Required reservedOption" by (simp add: reservedOption_def)
  have d: "Option_Default reservedOption = None" by (simp add: reservedOption_def)
  have w: "(withManifest xs)\<lparr>Decode := (\<lambda>b. Inr \<lparr>Configuration = ys\<rparr>)\<rparr> = withManifest ys"
    for xs ys by (simp add: withManifest_def)
  have e: "snd (ToMap (withManifest [plainOption]) sampleOptions ''openscap'') = None"
    by code_simp
  have v: "fst (ToMap (withManifest [plainOption]) sampleOptions ''openscap'') ''n'' = Some ''v''"
    by code_simp
  have ws: "Workspace sampleOptions = ''/ws''" "Profile sampleOptions = ''cis''"
    by (simp_all add: sampleOptions_def)
  note inst = ToMap_workspace_profile [of "withManifest [reservedOption, plainOption]" sampleOptions
      "''openscap''" reservedOption "[]" "[]" "[plainOption]" Map.empty]
  have eq: "ToMap (withManifest [reservedOption, plainOption]) sampleOptions ''openscap''
      = ToMap (withManifest [plainOption]) sampleOptions ''openscap''"
    using inst n by (simp add: w)
  have a1: "fst (ToMap (withManifest [reservedOption, plainOption]) sampleOptions ''openscap'')
      ''workspace'' = Some ''/ws''"
    using conjunct1 [OF inst] by (simp add: ws)
  have a2: "fst (ToMap (withManifest [reservedOption, plainOption]) sampleOptions ''openscap'')
      ''profile'' = Some ''cis''"
    using conjunct1 [OF conjunct2 [OF inst]] by (simp add: ws)
  have e': "snd (ToMap (withManifest [reservedOption, plainOption]) sampleOptions ''openscap'') = None"
    unfolding eq by (rule e)
  have v': "fst (ToMap (withManifest [reservedOption, plainOption]) sampleOptions ''openscap'') ''n''
      = Some ''v''"
    unfolding eq by (rule v)
  from n r d eq e' v' a1 a2 show ?thesis by blast
qed

end
